theory Spec2Isabelle
  imports Main
begin

section \<open>Cookies (cookies.go)\<close>

subsection \<open>Data model\<close>

text \<open>
  Go strings are byte sequences and \<open>len\<close> counts bytes; \<open>string\<close> is a list of 8-bit
  characters, so \<open>length\<close> is Go's \<open>len\<close>. Go's \<open>int\<close> is 64 bits wide; every integer
  computed below is bounded by the length of a string held in memory plus a few thousand,
  far from \<open>2^63\<close>, so the integers are modelled as \<open>int\<close>.

  \<open>time.Time\<close> is an instant in nanoseconds and \<open>time.Duration\<close> a signed number of
  nanoseconds. The reading of the clock, \<open>time.Now()\<close>, is an argument \<open>now\<close> of the
  functions that call it.
\<close>

type_synonym time = int
type_synonym duration = int

text \<open>The configuration fields that cookies.go reads.\<close>

record Config =
  CookieDomain :: string
  HTTPOnlyCookie :: bool
  SecureCookie :: bool
  SameSiteCookie :: string
  EnableSessionCookies :: bool
  CookieAccessName :: string
  CookieRefreshName :: string

text \<open>
  \<open>http.SameSite\<close>: the zero value of the field means that no SameSite attribute is
  written; the four named modes follow (\<open>iota + 1\<close>).
\<close>

datatype SameSite =
  SameSiteUnset | SameSiteDefaultMode | SameSiteLaxMode | SameSiteStrictMode | SameSiteNoneMode

text \<open>
  \<open>http.Cookie\<close>, the fields that the code sets. The zero \<open>time.Time\<close> of \<open>Expires\<close>
  (no Expires attribute is written) is \<open>None\<close>.
\<close>

record Cookie =
  c_Name :: string
  c_Value :: string
  c_Path :: string
  c_Domain :: string
  c_Expires :: "time option"
  c_Secure :: bool
  c_HttpOnly :: bool
  c_SameSite :: SameSite

text \<open>Run-time panics of the Go code.\<close>

datatype panic =
  DevErrorGuard | SliceBoundsOutOfRange | IntegerDivideByZero | NilPointerDereference

definition SameSiteStrict :: string where "SameSiteStrict = ''Strict''"
definition SameSiteLax :: string where "SameSiteLax = ''Lax''"
definition SameSiteNone :: string where "SameSiteNone = ''None''"

subsection \<open>Library functions used by the code\<close>

text \<open>\<open>strings.Split(s, sep)\<close> for a separator of one byte: it never returns an empty slice.\<close>

fun strings_Split :: "string \<Rightarrow> char \<Rightarrow> string list" where
  "strings_Split [] sep = [[]]"
| "strings_Split (c # cs) sep =
     (if c = sep then [] # strings_Split cs sep
      else (case strings_Split cs sep of
              [] \<Rightarrow> [[c]]
            | p # ps \<Rightarrow> (c # p) # ps))"

text \<open>\<open>strings.Split(host, ":")[0]\<close>; index 0 exists, see \<open>strings_Split_nonempty\<close>.\<close>

definition host_without_port :: "string \<Rightarrow> string" where
  "host_without_port host = hd (strings_Split host (CHR '':''))"

text \<open>\<open>strconv.Itoa\<close>: the decimal digits, most significant first, with a sign.\<close>

definition digit_char :: "nat \<Rightarrow> char" where
  "digit_char d = char_of (48 + d)"

fun digits :: "nat \<Rightarrow> string" where
  "digits n = (if n < 10 then [digit_char n] else digits (n div 10) @ [digit_char (n mod 10)])"

declare digits.simps [simp del]

definition Itoa :: "int \<Rightarrow> string" where
  "Itoa i = (if i < 0 then CHR ''-'' # digits (nat (- i)) else digits (nat i))"

text \<open>Go's integer division truncates towards zero and panics on a zero divisor.\<close>

definition go_quot :: "int \<Rightarrow> int \<Rightarrow> panic + int" where
  "go_quot a b =
     (if b = 0 then Inl IntegerDivideByZero
      else Inr (sgn a * sgn b * (\<bar>a\<bar> div \<bar>b\<bar>)))"

text \<open>The slice expression \<open>s[lo:hi]\<close> of a string: it panics unless \<open>0 \<le> lo \<le> hi \<le> len(s)\<close>.\<close>

definition go_slice :: "string \<Rightarrow> int \<Rightarrow> int \<Rightarrow> panic + string" where
  "go_slice s lo hi =
     (if 0 \<le> lo \<and> lo \<le> hi \<and> hi \<le> int (length s)
      then Inr (take (nat (hi - lo)) (drop (nat lo) s))
      else Inl SliceBoundsOutOfRange)"

subsection \<open>makeCookieDropper\<close>

type_synonym cookieDropper = "time \<Rightarrow> string \<Rightarrow> string \<Rightarrow> string \<Rightarrow> duration \<Rightarrow> Cookie"

definition baseCookie :: "Config \<Rightarrow> Cookie" where
  "baseCookie cfg =
     (let b = \<lparr> c_Name = [], c_Value = [], c_Path = ''/'', c_Domain = CookieDomain cfg,
                c_Expires = None, c_Secure = SecureCookie cfg,
                c_HttpOnly = HTTPOnlyCookie cfg, c_SameSite = SameSiteUnset \<rparr>
      in if SameSiteCookie cfg = SameSiteStrict then b\<lparr> c_SameSite := SameSiteStrictMode \<rparr>
         else if SameSiteCookie cfg = SameSiteLax then b\<lparr> c_SameSite := SameSiteLaxMode \<rparr>
         else b)"

definition makeBase :: "Config \<Rightarrow> string \<Rightarrow> string \<Rightarrow> Cookie" where
  "makeBase cfg name val = (baseCookie cfg)\<lparr> c_Name := name, c_Value := val \<rparr>"

text \<open>
  The four closures of the \<open>switch\<close>, in the order of the source, and its \<open>default\<close>
  branch, which panics.
\<close>

definition makeCookieDropper :: "Config \<Rightarrow> panic + cookieDropper" where
  "makeCookieDropper cfg =
     (if CookieDomain cfg = [] \<and> EnableSessionCookies cfg then
        Inr (\<lambda>now host name val dur.
               let cookie = (makeBase cfg name val)\<lparr> c_Domain := host_without_port host \<rparr>
               in if dur < 0 then cookie\<lparr> c_Expires := Some (now + dur) \<rparr> else cookie)
      else if CookieDomain cfg = [] \<and> \<not> EnableSessionCookies cfg then
        Inr (\<lambda>now host name val dur.
               let cookie = (makeBase cfg name val)\<lparr> c_Domain := host_without_port host \<rparr>
               in if dur \<noteq> 0 then cookie\<lparr> c_Expires := Some (now + dur) \<rparr> else cookie)
      else if CookieDomain cfg \<noteq> [] \<and> EnableSessionCookies cfg then
        Inr (\<lambda>now host name val dur.
               let cookie = makeBase cfg name val
               in if dur < 0 then cookie\<lparr> c_Expires := Some (now + dur) \<rparr> else cookie)
      else if CookieDomain cfg \<noteq> [] \<and> \<not> EnableSessionCookies cfg then
        Inr (\<lambda>now host name val dur.
               let cookie = makeBase cfg name val
               in if dur \<noteq> 0 then cookie\<lparr> c_Expires := Some (now + dur) \<rparr> else cookie)
      else Inl DevErrorGuard)"

text \<open>
  The proxy's field \<open>cookieDropper\<close>, set once from \<open>makeCookieDropper\<close>; the \<open>default\<close>
  branch is never taken (\<open>makeCookieDropper_no_panic\<close>).
\<close>

definition cookieDropper :: "Config \<Rightarrow> cookieDropper" where
  "cookieDropper cfg = projr (makeCookieDropper cfg)"

text \<open>
  The response is the sequence of cookies handed to \<open>http.SetCookie\<close>, in the order of
  the calls.
\<close>

type_synonym response = "Cookie list"

definition dropCookie ::
  "Config \<Rightarrow> time \<Rightarrow> response \<Rightarrow> string \<Rightarrow> string \<Rightarrow> string \<Rightarrow> duration \<Rightarrow> response" where
  "dropCookie cfg now w host name val dur = w @ [cookieDropper cfg now host name val dur]"

subsection \<open>makeCookieChunker\<close>

definition cookieMargin :: int where
  "cookieMargin = 12 + int (length ''set-cookie: '') + 3"

definition baseCookieChunkLength :: int where
  "baseCookieChunkLength = 4096 - cookieMargin"

definition makeCookieChunker :: "Config \<Rightarrow> string \<Rightarrow> string \<Rightarrow> int" where
  "makeCookieChunker cfg =
     (let m0 = baseCookieChunkLength - int (length ''; Path=/'');
          m1 = (if HTTPOnlyCookie cfg then m0 - int (length ''HttpOnly; '') else m0);
          m2 = (if \<not> EnableSessionCookies cfg
                then m1 - int (length ''Expires=Mon, 02 Jan 2006 03:04:05 MST; '') else m1);
          m3 = (if SameSiteCookie cfg \<noteq> []
                then m2 - int (length (''SameSite='' @ SameSiteCookie cfg @ ''; '')) else m2);
          m4 = (if SecureCookie cfg then m3 - int (length ''Secure'') else m3)
      in if CookieDomain cfg \<noteq> [] then
           (let m5 = m4 - int (length ''Domain=; '') - int (length (CookieDomain cfg))
            in (\<lambda>_ cookieName. m5 - int (length cookieName)))
         else (\<lambda>host cookieName.
                 m4 - int (length cookieName) - int (length (host_without_port host))))"

text \<open>\<open>getMaxCookieChunkLength\<close> reads the host of the request.\<close>

definition getMaxCookieChunkLength :: "Config \<Rightarrow> string \<Rightarrow> string \<Rightarrow> int" where
  "getMaxCookieChunkLength cfg host cookieName = makeCookieChunker cfg host cookieName"

subsection \<open>dropCookieWithChunks\<close>

text \<open>
  The loop \<open>for i := maxCookieChunkLength; i < len(value); i += maxCookieChunkLength\<close>.
  The arguments of \<open>dropCookie\<close> are evaluated from left to right: the quotient of the
  cookie name first, then the slice of the value; either may panic.
\<close>

function chunk_loop ::
  "Config \<Rightarrow> time \<Rightarrow> string \<Rightarrow> string \<Rightarrow> string \<Rightarrow> duration \<Rightarrow> int \<Rightarrow> int \<Rightarrow> response
     \<Rightarrow> panic + response" where
  "chunk_loop cfg now host name val dur m i w =
     (if i < int (length val) then
        (let e = (if i + m > int (length val) then int (length val) else i + m)
         in case go_quot i m of
              Inl p \<Rightarrow> Inl p
            | Inr k \<Rightarrow>
                (case go_slice val i e of
                   Inl p \<Rightarrow> Inl p
                 | Inr chunk \<Rightarrow>
                     chunk_loop cfg now host name val dur m (i + m)
                       (dropCookie cfg now w host (name @ ''-'' @ Itoa k) chunk dur)))
      else Inr w)"
  by pat_completeness auto
termination
proof (relation "measure (\<lambda>(cfg, now, host, name, val, dur, m, i, w). nat (int (length val) - i))")
  show "wf (measure (\<lambda>(cfg, now, host, name, val, dur, m, i, w). nat (int (length val) - i)))"
    by simp
qed (auto simp: go_slice_def go_quot_def split: if_splits)

declare chunk_loop.simps [simp del]

definition dropCookieWithChunks ::
  "Config \<Rightarrow> time \<Rightarrow> string \<Rightarrow> response \<Rightarrow> string \<Rightarrow> string \<Rightarrow> duration \<Rightarrow> panic + response" where
  "dropCookieWithChunks cfg now host w name val dur =
     (let maxCookieChunkLength = getMaxCookieChunkLength cfg host name
      in if int (length val) \<le> maxCookieChunkLength
         then Inr (dropCookie cfg now w host name val dur)
         else (case go_slice val 0 maxCookieChunkLength of
                 Inl p \<Rightarrow> Inl p
               | Inr first \<Rightarrow>
                   chunk_loop cfg now host name val dur maxCookieChunkLength
                     maxCookieChunkLength (dropCookie cfg now w host name first dur)))"

definition dropAccessTokenCookie ::
  "Config \<Rightarrow> time \<Rightarrow> string \<Rightarrow> response \<Rightarrow> string \<Rightarrow> duration \<Rightarrow> panic + response" where
  "dropAccessTokenCookie cfg now host w val dur =
     dropCookieWithChunks cfg now host w (CookieAccessName cfg) val dur"

definition dropRefreshTokenCookie ::
  "Config \<Rightarrow> time \<Rightarrow> string \<Rightarrow> response \<Rightarrow> string \<Rightarrow> duration \<Rightarrow> panic + response" where
  "dropRefreshTokenCookie cfg now host w val dur =
     dropCookieWithChunks cfg now host w (CookieRefreshName cfg) val dur"

subsection \<open>Clearing cookies\<close>

text \<open>
  The incoming request: its \<open>Host\<close> and the cookies of its Cookie header as
  \<open>req.Cookies()\<close> returns them, name and value, in the order of the header.
\<close>

record Request =
  r_Host :: string
  r_Cookies :: "(string \<times> string) list"

text \<open>
  \<open>req.Cookie(name)\<close>: the first cookie of that name, or \<open>http.ErrNoCookie\<close>
  (\<open>None\<close>); the empty name is never found.
\<close>

definition req_Cookie :: "Request \<Rightarrow> string \<Rightarrow> (string \<times> string) option" where
  "req_Cookie req name =
     (if name = [] then None else find (\<lambda>c. fst c = name) (r_Cookies req))"

definition Hour :: duration where
  "Hour = 3600 * 1000000000"

text \<open>The loop \<open>for i := 1; i < len(req.Cookies()); i++\<close> of \<open>clearDividedCookies\<close>.\<close>

function clear_loop ::
  "Config \<Rightarrow> time \<Rightarrow> Request \<Rightarrow> string \<Rightarrow> int \<Rightarrow> response \<Rightarrow> response" where
  "clear_loop cfg now req name i w =
     (if i < int (length (r_Cookies req)) then
        (case req_Cookie req (name @ ''-'' @ Itoa i) of
           None \<Rightarrow> w
         | Some _ \<Rightarrow>
             clear_loop cfg now req name (i + 1)
               (dropCookie cfg now w (r_Host req) (name @ ''-'' @ Itoa i) [] (- 10 * Hour)))
      else w)"
  by pat_completeness auto
termination
  by (relation "measure (\<lambda>(cfg, now, req, name, i, w). nat (int (length (r_Cookies req)) - i))")
     auto

declare clear_loop.simps [simp del]

definition clearDividedCookies ::
  "Config \<Rightarrow> time \<Rightarrow> Request \<Rightarrow> response \<Rightarrow> string \<Rightarrow> response" where
  "clearDividedCookies cfg now req w name = clear_loop cfg now req name 1 w"

definition clearRefreshTokenCookie :: "Config \<Rightarrow> time \<Rightarrow> Request \<Rightarrow> response \<Rightarrow> response" where
  "clearRefreshTokenCookie cfg now req w =
     clearDividedCookies cfg now req
       (dropCookie cfg now w (r_Host req) (CookieRefreshName cfg) [] (- 10 * Hour))
       (CookieRefreshName cfg)"

definition clearAccessTokenCookie :: "Config \<Rightarrow> time \<Rightarrow> Request \<Rightarrow> response \<Rightarrow> response" where
  "clearAccessTokenCookie cfg now req w =
     clearDividedCookies cfg now req
       (dropCookie cfg now w (r_Host req) (CookieAccessName cfg) [] (- 10 * Hour))
       (CookieAccessName cfg)"

text \<open>
  The name of the \<open>k\<close>-th cookie of a divided cookie set: the base name for the first
  chunk, \<open>name-k\<close> for the continuation \<open>k\<close>.
\<close>

definition chunk_name :: "string \<Rightarrow> nat \<Rightarrow> string" where
  "chunk_name name k = (if k = 0 then name else name @ ''-'' @ Itoa (int k))"

text \<open>Reading a decimal numeral back, the inverse of \<open>digits\<close>.\<close>

definition undigits :: "string \<Rightarrow> nat" where
  "undigits s = foldl (\<lambda>a c. 10 * a + (of_char c - 48)) 0 s"

section \<open>Forwarding (forwarding.go)\<close>

subsection \<open>The loop state\<close>

text \<open>
  \<open>jose.JWT\<close> and \<open>oidc.Identity\<close>, as the library declares them (the decoded header
  map of the token is left out). The zero value of a token has every field empty.
\<close>

record JWT =
  RawHeader :: string
  RawPayload :: string
  Payload :: string
  Signature :: string

definition zeroJWT :: JWT where
  "zeroJWT = \<lparr> RawHeader = [], RawPayload = [], Payload = [], Signature = [] \<rparr>"

record Identity =
  i_ID :: string
  i_Name :: string
  i_Email :: string
  i_ExpiresAt :: time

text \<open>
  The errors that the code compares or returns by name; any other error of a library or
  of the identity provider is \<open>OtherError\<close> with its message.
\<close>

datatype error = ErrRefreshTokenExpired | ErrNoTokenAudience | OtherError string

text \<open>
  \<open>forwardingState\<close>. The pointer \<open>identity\<close> is \<open>None\<close> when nil. The lock is not a
  field of the model: each section of the code between \<open>Lock\<close> and \<open>Unlock\<close> is one
  atomic update, recorded in the trace by the event \<open>Unlock\<close> with the state that it
  publishes.
\<close>

record forwardingState =
  token :: JWT
  refresh :: string
  identity :: "Identity option"
  expiration :: time
  login :: bool
  wait :: bool

text \<open>\<open>state := &forwardingState{login: true}\<close>: every other field has its zero value.\<close>

definition initialState :: forwardingState where
  "initialState = \<lparr> token = zeroJWT, refresh = [], identity = None, expiration = 0,
                      login = True, wait = False \<rparr>"

subsection \<open>The environment of the renewal task\<close>

text \<open>The fields of the token response that the loop reads.\<close>

record TokenResponse =
  AccessToken :: string
  RefreshToken :: string

text \<open>
  What the collaborators of the task answer during one iteration of its loop. They are
  not in the modelled files: the identity provider's client (\<open>client.UserCredsToken\<close>,
  \<open>getRefreshedToken\<close>), the parser \<open>parseToken\<close>, the clock behind \<open>getWithin\<close>, and the
  cancellation of \<open>forwardCtx\<close>, observed at the top of the loop and raced against each
  timer.
\<close>

record env =
  cancelled :: bool
  userCredsToken :: "error + TokenResponse"
  parseToken :: "string \<Rightarrow> error + JWT \<times> Identity"
  getRefreshedToken :: "string \<Rightarrow> error + JWT \<times> string \<times> time"
  getWithin :: "time \<Rightarrow> duration"
  cancelledInSleep :: bool

datatype level = Info | Warn | Error

text \<open>
  The trace of an iteration, in the order of the source: the log entries, the calls with
  their results, the publications of the shared state at each \<open>Unlock\<close>, and the timed
  waits (\<open>select\<close> between the cancellation and \<open>time.After\<close>).
\<close>

datatype event =
  Unlock forwardingState
| Log level
| UserCredsToken "error + TokenResponse"
| ParseToken "error + JWT \<times> Identity"
| GetRefreshedToken string "error + JWT \<times> string \<times> time"
| Sleep duration

text \<open>How an iteration ends: \<open>continue\<close> or the end of the body, \<open>return nil\<close>, or a panic.\<close>

datatype outcome = Continue | Return | Panicked panic

definition Second :: duration where
  "Second = 1000000000"

subsection \<open>One iteration of the loop of forwardProxyHandler\<close>

text \<open>
  \<open>cloneState := state\<close> copies the pointer, not the record: every read through
  \<open>cloneState\<close> is a read of the shared state as the task itself last wrote it. The task
  is the only writer, so the model passes the one state along.
\<close>

text \<open>The first section under the lock: \<open>state.wait = false\<close>.\<close>

definition begin_iteration :: "forwardingState \<Rightarrow> forwardingState" where
  "begin_iteration s = s\<lparr> wait := False \<rparr>"

text \<open>The back-off after a failed login or parse: five seconds, or the cancellation.\<close>

definition backoff :: "env \<Rightarrow> forwardingState \<Rightarrow> event list \<Rightarrow> outcome \<times> forwardingState \<times> event list" where
  "backoff e s evs =
     (if cancelledInSleep e then Return else Continue, s, evs @ [Sleep (5 * Second)])"

text \<open>The wait for the expiration at the end of the body, \<open>if cloneState.wait\<close>.\<close>

definition wait_step :: "env \<Rightarrow> forwardingState \<Rightarrow> event list \<Rightarrow> outcome \<times> forwardingState \<times> event list" where
  "wait_step e s evs =
     (if wait s
      then (if cancelledInSleep e then Return else Continue, s,
            evs @ [Log Info, Sleep (getWithin e (expiration s))])
      else (Continue, s, evs))"

text \<open>The branch \<open>if cloneState.login\<close>.\<close>

definition login_branch :: "env \<Rightarrow> forwardingState \<Rightarrow> event list \<Rightarrow> outcome \<times> forwardingState \<times> event list" where
  "login_branch e s evs =
     (case userCredsToken e of
        Inl err \<Rightarrow> backoff e s (evs @ [Log Info, UserCredsToken (Inl err), Log Error])
      | Inr resp \<Rightarrow>
          (case parseToken e (AccessToken resp) of
             Inl err \<Rightarrow>
               backoff e s (evs @ [Log Info, UserCredsToken (Inr resp), ParseToken (Inl err),
                                   Log Error])
           | Inr (tok, ident) \<Rightarrow>
               (let s' = s\<lparr> token := tok, identity := Some ident,
                             expiration := i_ExpiresAt ident, wait := True, login := False,
                             refresh := RefreshToken resp \<rparr>
                in wait_step e s'
                     (evs @ [Log Info, UserCredsToken (Inr resp), ParseToken (Inr (tok, ident)),
                             Log Info, Unlock s']))))"

text \<open>
  The \<open>else\<close> branch. Its first log entry reads \<open>cloneState.identity.ID\<close>, a nil
  dereference when no identity is stored.
\<close>

definition refresh_branch :: "env \<Rightarrow> forwardingState \<Rightarrow> event list \<Rightarrow> outcome \<times> forwardingState \<times> event list" where
  "refresh_branch e s evs =
     (case identity s of
        None \<Rightarrow> (Panicked NilPointerDereference, s, evs)
      | Some _ \<Rightarrow>
          (if refresh s \<noteq> [] then
             (case getRefreshedToken e (refresh s) of
                Inl err \<Rightarrow>
                  (let s' = s\<lparr> login := True \<rparr>
                   in (Continue, s',
                       evs @ [Log Info, Log Info, GetRefreshedToken (refresh s) (Inl err),
                              Log (if err = ErrRefreshTokenExpired then Warn else Error),
                              Unlock s']))
              | Inr (tok, newRefreshToken, exp) \<Rightarrow>
                  (let s' = s\<lparr> token := tok, expiration := exp, wait := True, login := False,
                                refresh := (if newRefreshToken \<noteq> [] then newRefreshToken
                                            else refresh s) \<rparr>
                   in wait_step e s'
                        (evs @ [Log Info, Log Info,
                                GetRefreshedToken (refresh s) (Inr (tok, newRefreshToken, exp)),
                                Log Info, Unlock s'])))
           else
             (let s' = s\<lparr> wait := False, login := True \<rparr>
              in wait_step e s' (evs @ [Log Info, Log Info, Unlock s']))))"

text \<open>The body of the \<open>for\<close> loop, from the check of the cancellation on.\<close>

definition iteration :: "env \<Rightarrow> forwardingState \<Rightarrow> outcome \<times> forwardingState \<times> event list" where
  "iteration e s =
     (if cancelled e then (Return, s, [])
      else (let s1 = begin_iteration s
            in if login s1 then login_branch e s1 [Unlock s1]
               else refresh_branch e s1 [Unlock s1]))"

text \<open>
  The task: iterations from a state on, one environment per iteration, until one of
  them returns or panics. The result is the trace; a task that is still running when the
  environments are used up has produced the trace so far.
\<close>

fun run :: "env list \<Rightarrow> forwardingState \<Rightarrow> event list" where
  "run [] s = []"
| "run (e # es) s =
     (case iteration e s of
        (Continue, s', evs) \<Rightarrow> evs @ run es s'
      | (_, s', evs) \<Rightarrow> evs)"

text \<open>The states with which an iteration of the loop can start.\<close>

inductive reachable :: "forwardingState \<Rightarrow> bool" where
  reachable_init: "reachable initialState"
| reachable_step: "reachable s \<Longrightarrow> iteration e s = (Continue, s', evs) \<Longrightarrow> reachable s'"

subsection \<open>The signer\<close>

text \<open>
  The handler that \<open>forwardProxyHandler\<close> returns reads \<open>state.token\<close> under the read
  lock and sets the Authorization header when the host is signed. \<open>encode\<close> is
  \<open>token.Encode()\<close>; \<open>hostSigned\<close> is the test on the forwarding domains.
\<close>

definition signer_token :: "forwardingState \<Rightarrow> JWT" where
  "signer_token s = token s"

definition authorization_header :: "(JWT \<Rightarrow> string) \<Rightarrow> bool \<Rightarrow> forwardingState \<Rightarrow> string option" where
  "authorization_header encode hostSigned s =
     (if hostSigned then Some (''Bearer '' @ encode (signer_token s)) else None)"

text \<open>
  What a signer can read while the task produces a trace from the state \<open>s\<close>: the state
  before each event and after the last one; it changes at each \<open>Unlock\<close> only.
\<close>

fun views :: "forwardingState \<Rightarrow> event list \<Rightarrow> forwardingState list" where
  "views s [] = [s]"
| "views s (Unlock s' # evs) = s # views s' evs"
| "views s (_ # evs) = s # views s evs"

text \<open>The tokens that the successful logins and refreshes of a trace have obtained, in order.\<close>

fun produced :: "event list \<Rightarrow> JWT list" where
  "produced [] = []"
| "produced (ParseToken (Inr (tok, _)) # evs) = tok # produced evs"
| "produced (GetRefreshedToken _ (Inr (tok, _, _)) # evs) = tok # produced evs"
| "produced (_ # evs) = produced evs"

text \<open>
  \<open>fresh cur evs\<close>: along the trace, every state published at an \<open>Unlock\<close> holds the token
  obtained by the latest successful login or refresh before it, and \<open>cur\<close> when there is
  none in the trace yet.
\<close>

fun fresh :: "JWT \<Rightarrow> event list \<Rightarrow> bool" where
  "fresh cur [] = True"
| "fresh cur (Unlock s # evs) = (token s = cur \<and> fresh cur evs)"
| "fresh cur (ParseToken (Inr (tok, _)) # evs) = fresh tok evs"
| "fresh cur (GetRefreshedToken _ (Inr (tok, _, _)) # evs) = fresh tok evs"
| "fresh cur (_ # evs) = fresh cur evs"

text \<open>The token obtained by the latest success of a trace, \<open>cur\<close> when it has none.\<close>

fun latest :: "JWT \<Rightarrow> event list \<Rightarrow> JWT" where
  "latest cur [] = cur"
| "latest cur (ParseToken (Inr (tok, _)) # evs) = latest tok evs"
| "latest cur (GetRefreshedToken _ (Inr (tok, _, _)) # evs) = latest tok evs"
| "latest cur (_ # evs) = latest cur evs"

text \<open>Example answers of the collaborators, and the state after a first successful login.\<close>

definition example_token :: JWT where
  "example_token = \<lparr> RawHeader = ''h'', RawPayload = ''p'', Payload = ''{}'', Signature = ''s'' \<rparr>"

definition example_identity :: Identity where
  "example_identity = \<lparr> i_ID = ''svc'', i_Name = [], i_Email = ''svc@example.com'',
                          i_ExpiresAt = 3600 * Second \<rparr>"

definition env_login_ok :: env where
  "env_login_ok =
     \<lparr> cancelled = False,
       userCredsToken = Inr \<lparr> AccessToken = ''h.p.s'', RefreshToken = ''r0'' \<rparr>,
       parseToken = (\<lambda>_. Inr (example_token, example_identity)),
       getRefreshedToken = (\<lambda>_. Inl ErrRefreshTokenExpired),
       getWithin = (\<lambda>_. 3060 * Second),
       cancelledInSleep = False \<rparr>"

definition env_login_fails :: env where
  "env_login_fails =
     \<lparr> cancelled = False,
       userCredsToken = Inl (OtherError ''connection refused''),
       parseToken = (\<lambda>_. Inl (OtherError ''malformed token'')),
       getRefreshedToken = (\<lambda>_. Inl ErrRefreshTokenExpired),
       getWithin = (\<lambda>_. 3060 * Second),
       cancelledInSleep = False \<rparr>"

definition example_active :: forwardingState where
  "example_active =
     \<lparr> token = example_token, refresh = ''r0'', identity = Some example_identity,
       expiration = 3600 * Second, login = False, wait = True \<rparr>"

section \<open>Identity extraction (extractIdentity)\<close>

text \<open>
  The values of a decoded claim set (\<open>interface{}\<close> after JSON decoding): nil, a boolean,
  a number, a string, \<open>[]interface{}\<close> or \<open>map[string]interface{}\<close>. \<open>jose.Claims\<close> is such
  a map; it is a list of bindings with distinct keys, read with \<open>map_of\<close>. Go ranges over
  a map in an unspecified order; the model ranges in the order of the list.
\<close>

datatype json =
  JNull | JBool bool | JNumber int | JString string | JArray "json list"
| JObject "(string \<times> json) list"





















section \<open>Properties of the cookie functions\<close>

lemma strings_Split_nonempty: "strings_Split s sep \<noteq> []"
  by (induction s) (auto split: list.splits)

lemma makeCookieDropper_no_panic: "\<exists>f. makeCookieDropper cfg = Inr f"
  unfolding makeCookieDropper_def by simp

text \<open>
  C5. With no cookie domain, session cookies enabled, HTTP-only and secure cookies and
  same-site mode Lax, the chunk budget for cookie name kc-access and request host
  example.com:8443 is exactly 4011 bytes.
\<close>

theorem chunk_budget_kc_access:
  "getMaxCookieChunkLength
     \<lparr> CookieDomain = [], HTTPOnlyCookie = True, SecureCookie = True,
       SameSiteCookie = ''Lax'', EnableSessionCookies = True,
       CookieAccessName = an, CookieRefreshName = rn \<rparr>
     ''example.com:8443'' ''kc-access'' = 4011"
  by (simp add: getMaxCookieChunkLength_def makeCookieChunker_def baseCookieChunkLength_def
      cookieMargin_def host_without_port_def)

subsection \<open>Writing a value in chunks\<close>

lemma go_quot_nonneg: "0 \<le> a \<Longrightarrow> 0 < b \<Longrightarrow> go_quot a b = Inr (a div b)"
  by (cases "a = 0") (simp_all add: go_quot_def)

lemma ceil_div_le: "0 < b \<Longrightarrow> ((n + b - 1) div b \<le> k) = (n \<le> k * (b::nat))"
proof -
  assume b: "0 < b"
  have "((n + b - 1) div b \<le> k) = ((n + b - 1) div b < Suc k)" by auto
  also have "\<dots> = (n + b - 1 < Suc k * b)" using b by (simp only: div_less_iff_less_mult)
  also have "\<dots> = (n \<le> k * b)" using b by auto
  finally show ?thesis .
qed

lemma cookieDropper_Name [simp]: "c_Name (cookieDropper cfg now host name val dur) = name"
  by (simp add: cookieDropper_def makeCookieDropper_def makeBase_def Let_def)

lemma cookieDropper_Value [simp]: "c_Value (cookieDropper cfg now host name val dur) = val"
  by (simp add: cookieDropper_def makeCookieDropper_def makeBase_def Let_def)

lemma go_slice_stride:
  assumes "0 < b" "i < length val"
  shows "go_slice val (int i)
           (if int i + int b > int (length val) then int (length val) else int i + int b)
         = Inr (take b (drop i val))"
proof (cases "int i + int b > int (length val)")
  case True
  then have "length val - i \<le> b" by simp
  with True assms show ?thesis by (simp add: go_slice_def)
next
  case False
  with assms show ?thesis by (simp add: go_slice_def)
qed

lemma chunk_loop_done:
  "int (length val) \<le> i \<Longrightarrow> chunk_loop cfg now host name val dur m i w = Inr w"
  by (subst chunk_loop.simps) simp

lemma chunk_loop_step:
  assumes "0 < b" "i < length val"
  shows "chunk_loop cfg now host name val dur (int b) (int i) w =
         chunk_loop cfg now host name val dur (int b) (int (i + b))
           (w @ [cookieDropper cfg now host (name @ ''-'' @ Itoa (int (i div b)))
                   (take b (drop i val)) dur])"
proof -
  have q: "go_quot (int i) (int b) = Inr (int (i div b))"
    using assms by (simp add: go_quot_nonneg zdiv_int)
  show ?thesis
    apply (subst chunk_loop.simps)
    using assms(2) q go_slice_stride [OF assms]
    apply (simp add: Let_def dropCookie_def)
    done
qed

lemma chunk_loop_chunks:
  assumes "0 < b"
  shows "chunk_loop cfg now host name val dur (int b) (int (k * b)) w =
           Inr (w @ map (\<lambda>j. cookieDropper cfg now host (name @ ''-'' @ Itoa (int j))
                               (take b (drop (j * b) val)) dur)
                        [k..<(length val + b - 1) div b])"
proof (induction "length val - k * b" arbitrary: k w rule: less_induct)
  case less
  let ?n = "(length val + b - 1) div b"
  show ?case
  proof (cases "k * b < length val")
    case False
    then have "?n \<le> k"
      using assms ceil_div_le [of b "length val" k] by simp
    moreover have "int (length val) \<le> int (k * b)"
      using False by (simp only: of_nat_le_iff)
    ultimately show ?thesis
      by (simp add: chunk_loop_done del: of_nat_mult)
  next
    case True
    then have kn: "k < ?n"
      using assms ceil_div_le [of b "length val" k] by simp
    have lt: "length val - Suc k * b < length val - k * b"
      using True assms by simp
    have kb: "k * b + b = Suc k * b" "k * b div b = k"
      using assms by simp_all
    show ?thesis
      by (simp only: chunk_loop_step [OF assms True] kb less [OF lt] upt_conv_Cons [OF kn])
         simp
  qed
qed

lemma concat_strides:
  "concat (map (\<lambda>k. take b (drop (k * b) val)) [0..<n]) = take (n * b) val"
proof (induction n)
  case 0
  show ?case by simp
next
  case (Suc n)
  have "take (n * b + b) val = take (n * b) val @ take b (drop (n * b) val)"
    by (rule take_add)
  with Suc show ?case by (simp add: add.commute)
qed

lemma chunk_name_0: "chunk_name name 0 = name"
  by (simp add: chunk_name_def)

lemma chunk_name_pos: "0 < k \<Longrightarrow> chunk_name name k = name @ ''-'' @ Itoa (int k)"
  by (simp add: chunk_name_def)

lemma dropCookieWithChunks_single:
  assumes "getMaxCookieChunkLength cfg host name = int b" "length val \<le> b"
  shows "dropCookieWithChunks cfg now host w name val dur =
           Inr (w @ [cookieDropper cfg now host name val dur])"
  using assms by (simp add: dropCookieWithChunks_def dropCookie_def)

lemma dropCookieWithChunks_many:
  assumes budget: "getMaxCookieChunkLength cfg host name = int b"
    and pos: "0 < b" and long: "b < length val"
  shows "dropCookieWithChunks cfg now host w name val dur =
           Inr (w @ map (\<lambda>k. cookieDropper cfg now host (chunk_name name k)
                                 (take b (drop (k * b) val)) dur)
                        [0..<(length val + b - 1) div b])"
proof -
  let ?n = "(length val + b - 1) div b"
  let ?c = "\<lambda>k. cookieDropper cfg now host (chunk_name name k) (take b (drop (k * b) val)) dur"
  have n: "1 < ?n"
    using pos long ceil_div_le [of b "length val" 1] by simp
  have first: "go_slice val 0 (int b) = Inr (take b val)"
    using long by (simp add: go_slice_def)
  have loop: "chunk_loop cfg now host name val dur (int b) (int (1 * b)) w' =
           Inr (w' @ map (\<lambda>j. cookieDropper cfg now host (name @ ''-'' @ Itoa (int j))
                               (take b (drop (j * b) val)) dur) [1..<?n])" for w'
    by (rule chunk_loop_chunks [OF pos])
  have tl: "map (\<lambda>j. cookieDropper cfg now host (name @ ''-'' @ Itoa (int j))
                               (take b (drop (j * b) val)) dur) [1..<?n] = map ?c [1..<?n]"
    by (rule map_cong) (simp_all add: chunk_name_pos)
  have upt: "[0..<?n] = 0 # [1..<?n]"
    using n by (simp add: upt_conv_Cons)
  have "dropCookieWithChunks cfg now host w name val dur =
          Inr ((w @ [cookieDropper cfg now host name (take b val) dur]) @ map ?c [1..<?n])"
    using long by (simp add: dropCookieWithChunks_def budget first dropCookie_def
        loop [simplified] tl [simplified])
  also have "(w @ [cookieDropper cfg now host name (take b val) dur]) @ map ?c [1..<?n]
               = w @ map ?c [0..<?n]"
    by (simp only: upt) (simp add: chunk_name_0)
  finally show ?thesis .
qed

lemma dropCookieWithChunks_chunks:
  assumes budget: "getMaxCookieChunkLength cfg host name = int b"
    and pos: "0 < b"
  shows "(let n = (if length val \<le> b then 1 else (length val + b - 1) div b)
          in dropCookieWithChunks cfg now host w name val dur =
               Inr (w @ map (\<lambda>k. cookieDropper cfg now host (chunk_name name k)
                                     (take b (drop (k * b) val)) dur) [0..<n])
           \<and> (length val \<le> b \<longrightarrow>
                dropCookieWithChunks cfg now host w name val dur =
                  Inr (w @ [cookieDropper cfg now host name val dur]))
           \<and> concat (map (\<lambda>k. take b (drop (k * b) val)) [0..<n]) = val
           \<and> (\<forall>k < n - 1. length (take b (drop (k * b) val)) = b)
           \<and> length (take b (drop ((n - 1) * b) val)) \<le> b)"
proof (cases "length val \<le> b")
  case True
  then show ?thesis
    using dropCookieWithChunks_single [OF budget True]
    by (simp add: chunk_name_0)
next
  case False
  let ?n = "(length val + b - 1) div b"
  have long: "b < length val" using False by simp
  have cover: "length val \<le> ?n * b"
    using pos ceil_div_le [of b "length val" ?n] by simp
  have full: "length (take b (drop (k * b) val)) = b" if "k < ?n - 1" for k
  proof -
    have "\<not> ?n \<le> Suc k" using that by simp
    then have "\<not> length val \<le> Suc k * b"
      using pos ceil_div_le [of b "length val" "Suc k"] by simp
    then show ?thesis by simp
  qed
  show ?thesis
    using False dropCookieWithChunks_many [OF budget pos long] cover full
    by (simp add: concat_strides)
qed

text \<open>
  C1. For a positive chunk budget \<open>b\<close>: a value of at most \<open>b\<close> bytes is written as one
  cookie whose name is the base name and whose value is the whole value; a longer value
  is written as the base cookie with bytes \<open>[0, b)\<close> followed, for \<open>k = 1, 2, \<dots>\<close>, by
  the cookie named \<open>name-k\<close> whose value is the bytes
  \<open>[k * b, min ((k + 1) * b) (len value))\<close>. The values of the emitted cookies,
  concatenated in this order, are the original value, and the value of every cookie but
  the last is exactly \<open>b\<close> bytes long.
\<close>

theorem dropCookieWithChunks_divides_value:
  assumes budget: "getMaxCookieChunkLength cfg host name = int b"
    and pos: "0 < b"
  shows "\<exists>cs. dropCookieWithChunks cfg now host w name val dur = Inr (w @ cs)
          \<and> (let n = (if length val \<le> b then 1 else (length val + b - 1) div b)
              in cs = map (\<lambda>k. cookieDropper cfg now host (chunk_name name k)
                                  (take b (drop (k * b) val)) dur) [0..<n]
               \<and> map c_Name cs =
                   map (\<lambda>k. if k = 0 then name else name @ ''-'' @ Itoa (int k)) [0..<n]
               \<and> map c_Value cs = map (\<lambda>k. take b (drop (k * b) val)) [0..<n]
               \<and> (length val \<le> b \<longrightarrow> map c_Name cs = [name] \<and> map c_Value cs = [val])
               \<and> concat (map c_Value cs) = val
               \<and> (\<forall>k < n - 1. length (c_Value (cs ! k)) = b)
               \<and> length (c_Value (cs ! (n - 1))) \<le> b)"
proof -
  let ?n = "if length val \<le> b then 1 else (length val + b - 1) div b"
  let ?cs = "map (\<lambda>k. cookieDropper cfg now host (chunk_name name k)
                         (take b (drop (k * b) val)) dur) [0..<?n]"
  note aux = dropCookieWithChunks_chunks [OF budget pos, of val now w dur, unfolded Let_def]
  have out: "dropCookieWithChunks cfg now host w name val dur = Inr (w @ ?cs)"
    using aux by simp
  have names: "map c_Name ?cs =
      map (\<lambda>k. if k = 0 then name else name @ ''-'' @ Itoa (int k)) [0..<?n]"
    by (simp add: chunk_name_def comp_def)
  have vals: "map c_Value ?cs = map (\<lambda>k. take b (drop (k * b) val)) [0..<?n]"
    by (simp add: comp_def)
  have small: "map c_Name ?cs = [name] \<and> map c_Value ?cs = [val]" if "length val \<le> b"
    using that by (simp add: chunk_name_0)
  have cat: "concat (map c_Value ?cs) = val"
    using aux by (simp only: vals)
  have npos: "0 < ?n"
    using pos ceil_div_le [of b "length val" 0] by (auto simp: not_le)
  have nth: "c_Value (?cs ! k) = take b (drop (k * b) val)" if "k < ?n" for k
    using that by (simp del: upt_Suc)
  have full: "\<forall>k < ?n - 1. length (c_Value (?cs ! k)) = b"
  proof (intro allI impI)
    fix k assume k: "k < ?n - 1"
    then have "k < ?n" by simp
    from nth [OF this] aux k show "length (c_Value (?cs ! k)) = b"
      by (simp del: upt_Suc)
  qed
  have lst: "length (c_Value (?cs ! (?n - 1))) \<le> b"
    using nth [of "?n - 1"] npos by (simp del: upt_Suc)
  show ?thesis
    unfolding Let_def
    using out names vals small cat full lst by (intro exI [of _ ?cs]) blast
qed

theorem dropCookieWithChunks_divides_value_witness:
  "getMaxCookieChunkLength
     \<lparr> CookieDomain = [], HTTPOnlyCookie = True, SecureCookie = True,
       SameSiteCookie = ''Lax'', EnableSessionCookies = True,
       CookieAccessName = ''kc-access'', CookieRefreshName = ''kc-state'' \<rparr>
     ''example.com:8443'' ''kc-access'' = int 4011 \<and> (0::nat) < 4011 \<and>
   map c_Name (projr (dropCookieWithChunks
     \<lparr> CookieDomain = [], HTTPOnlyCookie = True, SecureCookie = True,
       SameSiteCookie = ''Lax'', EnableSessionCookies = True,
       CookieAccessName = ''kc-access'', CookieRefreshName = ''kc-state'' \<rparr>
     0 ''example.com:8443'' [] ''kc-access'' (replicate 8100 (CHR ''x'')) 3600000000000))
   = [''kc-access'', ''kc-access-1'', ''kc-access-2'']
   \<and> map c_Value (projr (dropCookieWithChunks
     \<lparr> CookieDomain = [], HTTPOnlyCookie = True, SecureCookie = True,
       SameSiteCookie = ''Lax'', EnableSessionCookies = True,
       CookieAccessName = ''kc-access'', CookieRefreshName = ''kc-state'' \<rparr>
     0 ''example.com:8443'' [] ''kc-access'' (replicate 8100 (CHR ''x'')) 3600000000000))
   = [replicate 4011 (CHR ''x''), replicate 4011 (CHR ''x''), replicate 78 (CHR ''x'')]
   \<and> isl (dropCookieWithChunks
     \<lparr> CookieDomain = [], HTTPOnlyCookie = True, SecureCookie = True,
       SameSiteCookie = ''Lax'', EnableSessionCookies = True,
       CookieAccessName = ''kc-access'', CookieRefreshName = ''kc-state'' \<rparr>
     0 ''example.com:8443'' [] ''kc-access'' (replicate 8100 (CHR ''x'')) 3600000000000) = False"
proof -
  let ?cfg = "\<lparr> CookieDomain = [], HTTPOnlyCookie = True, SecureCookie = True,
       SameSiteCookie = ''Lax'', EnableSessionCookies = True,
       CookieAccessName = ''kc-access'', CookieRefreshName = ''kc-state'' \<rparr>"
  let ?out = "dropCookieWithChunks ?cfg 0 ''example.com:8443'' [] ''kc-access''
                (replicate 8100 (CHR ''x'')) 3600000000000"
  have b: "getMaxCookieChunkLength ?cfg ''example.com:8443'' ''kc-access'' = int 4011"
    by (simp add: getMaxCookieChunkLength_def makeCookieChunker_def baseCookieChunkLength_def
      cookieMargin_def host_without_port_def)
  have p: "(0::nat) < 4011" by simp
  have u: "[0..<3] = [0, 1, 2]" by (simp add: upt_rec)
  have d: "digits (Suc 0) = ''1''" "digits 2 = ''2''" by code_simp+
  from dropCookieWithChunks_divides_value [OF b p, of 0 "[]" "replicate 8100 (CHR ''x'')" 3600000000000]
  obtain cs where out: "?out = Inr cs"
    and nm: "map c_Name cs = [''kc-access'', ''kc-access-1'', ''kc-access-2'']"
    and vl: "map c_Value cs =
               [replicate 4011 (CHR ''x''), replicate 4011 (CHR ''x''), replicate 78 (CHR ''x'')]"
    by (auto simp: Let_def u Itoa_def d)
  from out nm vl b show ?thesis by simp
qed

subsection \<open>Clearing a divided cookie set\<close>

lemma undigit_char: "d < 10 \<Longrightarrow> of_char (digit_char d) - 48 = (d::nat)"
  by (simp add: digit_char_def)

lemma undigits_digits: "undigits (digits n) = n"
proof (induction n rule: digits.induct)
  case (1 n)
  show ?case
  proof (cases "n < 10")
    case True
    then show ?thesis
      by (subst digits.simps) (simp add: undigits_def undigit_char)
  next
    case False
    have "undigits (digits n) = 10 * undigits (digits (n div 10)) + (n mod 10)"
      using False by (subst digits.simps) (simp add: undigits_def undigit_char)
    with 1 False show ?thesis by simp
  qed
qed

lemma chunk_name_inj: "chunk_name name j = chunk_name name k \<Longrightarrow> j = k"
proof -
  assume eq: "chunk_name name j = chunk_name name k"
  have pos: "j = k" if "0 < j" "0 < k"
  proof -
    from eq that have "digits j = digits k"
      by (simp add: chunk_name_def Itoa_def)
    then have "undigits (digits j) = undigits (digits k)" by simp
    then show ?thesis by (simp only: undigits_digits)
  qed
  have zero: False if "0 < i" "chunk_name name 0 = chunk_name name i" for i
    using that by (simp add: chunk_name_def)
  show ?thesis
    using pos zero [of j] zero [of k] eq by (cases "j = 0"; cases "k = 0") auto
qed

lemma req_Cookie_found:
  "nm \<noteq> [] \<Longrightarrow> (req_Cookie req nm = None) = (nm \<notin> fst ` set (r_Cookies req))"
  by (force simp: req_Cookie_def find_None_iff image_iff)

lemma run_bounded_by_cookies:
  assumes "\<forall>k \<in> {0..n}. chunk_name name k \<in> fst ` set (r_Cookies req)"
  shows "n < length (r_Cookies req)"
proof -
  have "chunk_name name ` {0..n} \<subseteq> fst ` set (r_Cookies req)"
    using assms by auto
  then have "card (chunk_name name ` {0..n}) \<le> card (fst ` set (r_Cookies req))"
    by (intro card_mono) auto
  moreover have "inj_on (chunk_name name) {0..n}"
    by (rule inj_onI) (rule chunk_name_inj)
  then have "card (chunk_name name ` {0..n}) = Suc n"
    by (simp add: card_image)
  moreover have "card (fst ` set (r_Cookies req)) \<le> length (r_Cookies req)"
    by (metis card_image_le card_length le_trans List.finite_set)
  ultimately show ?thesis by simp
qed

lemma clear_loop_run:
  assumes run: "\<forall>k \<in> {1..n}. chunk_name name k \<in> fst ` set (r_Cookies req)"
    and stop: "chunk_name name (Suc n) \<notin> fst ` set (r_Cookies req)"
    and i: "0 < i" "i \<le> Suc n"
  shows "clear_loop cfg now req name (int i) w =
           w @ map (\<lambda>k. cookieDropper cfg now (r_Host req) (chunk_name name k) [] (- 10 * Hour))
                   [i..<Suc (min n (length (r_Cookies req) - 1))]"
  using i
proof (induction "Suc n - i" arbitrary: i w rule: less_induct)
  case less
  let ?m = "min n (length (r_Cookies req) - 1)"
  have nm: "name @ ''-'' @ Itoa (int i) = chunk_name name i"
    using less.prems by (simp add: chunk_name_def)
  show ?case
  proof (cases "i < length (r_Cookies req) \<and> i \<le> n")
    case False
    then have e: "[i..<Suc ?m] = []"
      using less.prems by auto
    have "clear_loop cfg now req name (int i) w = w"
    proof (cases "i < length (r_Cookies req)")
      case True
      with False less.prems have "i = Suc n" by simp
      with stop have "req_Cookie req (chunk_name name i) = None"
        by (simp add: req_Cookie_found chunk_name_def)
      then show ?thesis
        by (subst clear_loop.simps) (simp only: nm, simp)
    next
      case False
      then show ?thesis
        by (subst clear_loop.simps) simp
    qed
    then show ?thesis by (simp only: e) simp
  next
    case True
    then have "chunk_name name i \<in> fst ` set (r_Cookies req)"
      using run less.prems by simp
    moreover have "chunk_name name i \<noteq> []"
      using less.prems by (simp add: chunk_name_def)
    ultimately have "req_Cookie req (chunk_name name i) \<noteq> None"
      by (simp add: req_Cookie_found)
    then obtain c where c: "req_Cookie req (chunk_name name i) = Some c"
      by auto
    have u: "[i..<Suc ?m] = i # [Suc i..<Suc ?m]"
      using True by (intro upt_conv_Cons) arith
    have IH: "clear_loop cfg now req name (int (Suc i)) w' =
           w' @ map (\<lambda>k. cookieDropper cfg now (r_Host req) (chunk_name name k) [] (- 10 * Hour))
                   [Suc i..<Suc ?m]" for w'
      using True less.prems by (intro less.hyps) arith+
    have "int i + 1 = int (Suc i)" by simp
    then show ?thesis
      using True c
      by (subst clear_loop.simps) (simp only: nm IH u, simp add: dropCookie_def)
  qed
qed


lemma cleared_names:
  "map c_Name (map (\<lambda>k. cookieDropper cfg now host (chunk_name name k) v dur) ks) =
     map (\<lambda>k. if k = 0 then name else name @ ''-'' @ Itoa (int k)) ks"
  by (induction ks) (simp_all add: chunk_name_def)

text \<open>
  Clearing the access-token cookie emits a clearing cookie (empty value, expiry ten hours
  in the past) named after the base name and then, when \<open>1..n\<close> is the maximal
  contiguous run of continuation names on the request and \<open>c\<close> the number of its
  cookies, one named \<open>name-k\<close> for \<open>k = 1..min n (c - 1)\<close>, in this order. When the
  request also carries the base cookie, the whole run is cleared.
\<close>

lemma clearAccessTokenCookie_run:
  assumes run: "\<forall>k \<in> {1..n}. chunk_name (CookieAccessName cfg) k \<in> fst ` set (r_Cookies req)"
    and stop: "chunk_name (CookieAccessName cfg) (Suc n) \<notin> fst ` set (r_Cookies req)"
  shows "(let m = min n (length (r_Cookies req) - 1)
          in clearAccessTokenCookie cfg now req w =
               w @ map (\<lambda>k. cookieDropper cfg now (r_Host req)
                                (chunk_name (CookieAccessName cfg) k) [] (- 10 * Hour))
                       [0..<Suc m]
           \<and> map c_Name (drop (length w) (clearAccessTokenCookie cfg now req w)) =
               map (\<lambda>k. if k = 0 then CookieAccessName cfg
                        else CookieAccessName cfg @ ''-'' @ Itoa (int k)) [0..<Suc m]
           \<and> (\<forall>c \<in> set (drop (length w) (clearAccessTokenCookie cfg now req w)).
                 c_Value c = [] \<and> c_Expires c = Some (now - 10 * Hour) \<and> now - 10 * Hour < now)
           \<and> (CookieAccessName cfg \<in> fst ` set (r_Cookies req) \<longrightarrow> m = n))"
proof -
  let ?name = "CookieAccessName cfg"
  let ?m = "min n (length (r_Cookies req) - 1)"
  let ?c = "\<lambda>k. cookieDropper cfg now (r_Host req) (chunk_name ?name k) [] (- 10 * Hour)"
  have loop: "clear_loop cfg now req ?name (int 1) w' = w' @ map ?c [1..<Suc ?m]" for w'
    by (rule clear_loop_run [OF run stop]) simp_all
  have u: "[0..<Suc ?m] = 0 # [1..<Suc ?m]"
    by (simp only: One_nat_def) (rule upt_conv_Cons, simp)
  have out: "clearAccessTokenCookie cfg now req w = w @ map ?c [0..<Suc ?m]"
    using loop by (simp only: u) (simp add: clearAccessTokenCookie_def clearDividedCookies_def
        dropCookie_def chunk_name_0)
  have exp: "c_Expires (?c k) = Some (now - 10 * Hour)" for k
    by (simp add: cookieDropper_def makeCookieDropper_def makeBase_def Let_def Hour_def)
  have past: "now - 10 * Hour < now"
    by (simp add: Hour_def)
  have bound: "?m = n" if "?name \<in> fst ` set (r_Cookies req)"
  proof -
    have "\<forall>k \<in> {0..n}. chunk_name ?name k \<in> fst ` set (r_Cookies req)"
    proof
      fix k assume "k \<in> {0..n}"
      then show "chunk_name ?name k \<in> fst ` set (r_Cookies req)"
        using run that by (cases "k = 0") (simp_all add: chunk_name_0)
    qed
    then have "n < length (r_Cookies req)"
      by (rule run_bounded_by_cookies)
    then show ?thesis by simp
  qed
  have names: "map c_Name (map ?c [0..<Suc ?m]) =
      map (\<lambda>k. if k = 0 then ?name else ?name @ ''-'' @ Itoa (int k)) [0..<Suc ?m]"
    by (rule cleared_names)
  have dr: "drop (length w) (clearAccessTokenCookie cfg now req w) = map ?c [0..<Suc ?m]"
    by (simp only: out) simp
  have nm: "map c_Name (drop (length w) (clearAccessTokenCookie cfg now req w)) =
      map (\<lambda>k. if k = 0 then ?name else ?name @ ''-'' @ Itoa (int k)) [0..<Suc ?m]"
    by (simp only: dr names)
  have cl: "\<forall>c \<in> set (drop (length w) (clearAccessTokenCookie cfg now req w)).
              c_Value c = [] \<and> c_Expires c = Some (now - 10 * Hour) \<and> now - 10 * Hour < now"
  proof
    fix c assume "c \<in> set (drop (length w) (clearAccessTokenCookie cfg now req w))"
    then obtain k where "c = ?c k" by (simp only: dr) auto
    with exp [of k] past show "c_Value c = [] \<and> c_Expires c = Some (now - 10 * Hour)
        \<and> now - 10 * Hour < now" by simp
  qed
  show ?thesis
    unfolding Let_def using out nm cl bound by blast
qed

text \<open>A request with base, base-1 and base-3 yields clearings for base and base-1 only.\<close>

lemma clearAccessTokenCookie_run_gap:
  "chunk_name ''kc-access'' 1 \<in> fst ` set [(''kc-access'', ''a''), (''kc-access-1'', ''b''), (''kc-access-3'', ''c'')]
   \<and> chunk_name ''kc-access'' 2 \<notin> fst ` set [(''kc-access'', ''a''), (''kc-access-1'', ''b''), (''kc-access-3'', ''c'')]
   \<and> clearAccessTokenCookie
     \<lparr> CookieDomain = [], HTTPOnlyCookie = True, SecureCookie = True,
       SameSiteCookie = ''Lax'', EnableSessionCookies = True,
       CookieAccessName = ''kc-access'', CookieRefreshName = ''kc-state'' \<rparr> 0
     \<lparr> r_Host = ''example.com:8443'',
       r_Cookies = [(''kc-access'', ''a''), (''kc-access-1'', ''b''), (''kc-access-3'', ''c'')] \<rparr> []
   = [cookieDropper \<lparr> CookieDomain = [], HTTPOnlyCookie = True, SecureCookie = True,
       SameSiteCookie = ''Lax'', EnableSessionCookies = True,
       CookieAccessName = ''kc-access'', CookieRefreshName = ''kc-state'' \<rparr> 0
       ''example.com:8443'' ''kc-access'' [] (- 10 * Hour),
      cookieDropper \<lparr> CookieDomain = [], HTTPOnlyCookie = True, SecureCookie = True,
       SameSiteCookie = ''Lax'', EnableSessionCookies = True,
       CookieAccessName = ''kc-access'', CookieRefreshName = ''kc-state'' \<rparr> 0
       ''example.com:8443'' ''kc-access-1'' [] (- 10 * Hour)]
   \<and> map c_Name (clearAccessTokenCookie
     \<lparr> CookieDomain = [], HTTPOnlyCookie = True, SecureCookie = True,
       SameSiteCookie = ''Lax'', EnableSessionCookies = True,
       CookieAccessName = ''kc-access'', CookieRefreshName = ''kc-state'' \<rparr> 0
     \<lparr> r_Host = ''example.com:8443'',
       r_Cookies = [(''kc-access'', ''a''), (''kc-access-1'', ''b''), (''kc-access-3'', ''c'')] \<rparr> [])
   = [''kc-access'', ''kc-access-1'']"
proof -
  let ?cfg = "\<lparr> CookieDomain = [], HTTPOnlyCookie = True, SecureCookie = True,
       SameSiteCookie = ''Lax'', EnableSessionCookies = True,
       CookieAccessName = ''kc-access'', CookieRefreshName = ''kc-state'' \<rparr>"
  let ?req = "\<lparr> r_Host = ''example.com:8443'',
       r_Cookies = [(''kc-access'', ''a''), (''kc-access-1'', ''b''), (''kc-access-3'', ''c'')] \<rparr>"
  have d: "digits (Suc 0) = ''1''" "digits 2 = ''2''" by code_simp+
  have n1: "chunk_name ''kc-access'' (Suc 0) = ''kc-access-1''"
    and n2: "chunk_name ''kc-access'' 2 = ''kc-access-2''"
    by (simp_all add: chunk_name_def Itoa_def d)
  have run: "\<forall>k \<in> {1..1}. chunk_name (CookieAccessName ?cfg) k \<in> fst ` set (r_Cookies ?req)"
    by (simp add: n1)
  have s2: "Suc 1 = 2" by simp
  have stop: "chunk_name (CookieAccessName ?cfg) (Suc 1) \<notin> fst ` set (r_Cookies ?req)"
    by (simp only: s2) (simp add: n2)
  have u: "[0..<2] = [0, 1]" by (simp add: upt_rec)
  show ?thesis
    using clearAccessTokenCookie_run [OF run stop, of 0 "[]"]
    by (simp add: Let_def n1 n2 u chunk_name_0)
qed

text \<open>
  C2. Clearing emits a clearing cookie for the base name and for every continuation
  \<open>name-k\<close> of the maximal contiguous run present on the request. The loop of
  \<open>clearDividedCookies\<close> starts at \<open>i = 1\<close> and runs while \<open>i < len(req.Cookies())\<close>:
  it makes one attempt less than the request has cookies. On a request whose cookies are
  exactly the continuations of the run, the last one is found on the request and is not
  cleared: with \<open>kc-access-1\<close> alone only \<open>kc-access\<close> is cleared, and with
  \<open>kc-access-1\<close> and \<open>kc-access-2\<close> only \<open>kc-access\<close> and \<open>kc-access-1\<close>.
\<close>

theorem clearAccessTokenCookie_misses_continuation:
  "req_Cookie \<lparr> r_Host = ''example.com:8443'', r_Cookies = [(''kc-access-1'', ''b'')] \<rparr>
     ''kc-access-1'' = Some (''kc-access-1'', ''b'')
   \<and> map c_Name (clearAccessTokenCookie
     \<lparr> CookieDomain = [], HTTPOnlyCookie = True, SecureCookie = True,
       SameSiteCookie = ''Lax'', EnableSessionCookies = True,
       CookieAccessName = ''kc-access'', CookieRefreshName = ''kc-state'' \<rparr> 0
     \<lparr> r_Host = ''example.com:8443'', r_Cookies = [(''kc-access-1'', ''b'')] \<rparr> [])
     = [''kc-access'']
   \<and> req_Cookie \<lparr> r_Host = ''example.com:8443'',
                   r_Cookies = [(''kc-access-1'', ''b''), (''kc-access-2'', ''c'')] \<rparr>
     ''kc-access-2'' = Some (''kc-access-2'', ''c'')
   \<and> map c_Name (clearAccessTokenCookie
     \<lparr> CookieDomain = [], HTTPOnlyCookie = True, SecureCookie = True,
       SameSiteCookie = ''Lax'', EnableSessionCookies = True,
       CookieAccessName = ''kc-access'', CookieRefreshName = ''kc-state'' \<rparr> 0
     \<lparr> r_Host = ''example.com:8443'',
       r_Cookies = [(''kc-access-1'', ''b''), (''kc-access-2'', ''c'')] \<rparr> [])
     = [''kc-access'', ''kc-access-1'']"
proof -
  have d: "digits (Suc 0) = ''1''" by code_simp
  show ?thesis
    by (simp add: req_Cookie_def clearAccessTokenCookie_def clearDividedCookies_def
        clear_loop.simps dropCookie_def Itoa_def d)
qed

subsection \<open>Attributes of a cookie\<close>

lemma strings_Split_no_sep: "sep \<notin> set s \<Longrightarrow> strings_Split s sep = [s]"
  by (induction s) auto

lemma host_without_port_no_colon: "CHR '':'' \<notin> set h \<Longrightarrow> host_without_port h = h"
  by (simp add: host_without_port_def strings_Split_no_sep)






text \<open>
  C7. Every cookie carries a SameSite attribute equal to the configured mode, for the
  modes Strict, Lax and None. The \<open>switch\<close> of \<open>makeCookieDropper\<close> has the cases Strict
  and Lax only: with the mode None configured the field \<open>SameSite\<close> of every cookie
  keeps its zero value, so no SameSite attribute is written, while the chunk budget
  reserves the bytes of \<open>SameSite=None; \<close>.
\<close>

theorem sameSite_None_is_not_emitted:
  "c_SameSite (cookieDropper (cfg\<lparr> SameSiteCookie := SameSiteNone \<rparr>) now host name val dur)
     = SameSiteUnset
   \<and> getMaxCookieChunkLength (cfg\<lparr> SameSiteCookie := SameSiteNone \<rparr>) host name
     = getMaxCookieChunkLength (cfg\<lparr> SameSiteCookie := [] \<rparr>) host name
         - int (length ''SameSite=None; '')"
  by (simp add: cookieDropper_def makeCookieDropper_def makeBase_def baseCookie_def Let_def
      SameSiteNone_def SameSiteStrict_def SameSiteLax_def getMaxCookieChunkLength_def
      makeCookieChunker_def)

text \<open>The modes Strict and Lax are carried by every cookie.\<close>

lemma cookieDropper_SameSite_Strict_Lax:
  "SameSiteCookie cfg = SameSiteStrict \<Longrightarrow>
     c_SameSite (cookieDropper cfg now host name val dur) = SameSiteStrictMode"
  "SameSiteCookie cfg = SameSiteLax \<Longrightarrow>
     c_SameSite (cookieDropper cfg now host name val dur) = SameSiteLaxMode"
  by (simp_all add: cookieDropper_def makeCookieDropper_def makeBase_def baseCookie_def Let_def
      SameSiteStrict_def SameSiteLax_def)

text \<open>
  C8. Writing a value completes without a crash for every host, name, value and lifetime,
  also when the chunk budget is zero or negative. The budget falls with the length of
  the request host. With a host of 5000 bytes it is negative, and the slice
  \<open>value[0:maxCookieChunkLength]\<close> of a one-byte value panics; with a host of 4022 bytes
  it is zero, and the quotient \<open>i/maxCookieChunkLength\<close> of the first continuation name
  panics.
\<close>

theorem dropCookieWithChunks_panics:
  "dropCookieWithChunks
     \<lparr> CookieDomain = [], HTTPOnlyCookie = True, SecureCookie = True,
       SameSiteCookie = ''Lax'', EnableSessionCookies = True,
       CookieAccessName = ''kc-access'', CookieRefreshName = ''kc-state'' \<rparr>
     now (replicate 5000 (CHR ''a'')) w ''kc-access'' ''x'' dur = Inl SliceBoundsOutOfRange
   \<and> dropCookieWithChunks
     \<lparr> CookieDomain = [], HTTPOnlyCookie = True, SecureCookie = True,
       SameSiteCookie = ''Lax'', EnableSessionCookies = True,
       CookieAccessName = ''kc-access'', CookieRefreshName = ''kc-state'' \<rparr>
     now (replicate 4022 (CHR ''a'')) w ''kc-access'' ''x'' dur = Inl IntegerDivideByZero"
  by (simp add: dropCookieWithChunks_def getMaxCookieChunkLength_def makeCookieChunker_def
      baseCookieChunkLength_def cookieMargin_def host_without_port_no_colon go_slice_def
      chunk_loop.simps go_quot_def)

section \<open>Properties of the renewal task\<close>

lemmas iteration_defs =
  iteration_def begin_iteration_def login_branch_def refresh_branch_def backoff_def
  wait_step_def Let_def

text \<open>
  At the top of the loop the two flags are opposite, and a state that does not need a
  login holds an identity: the log entries of the \<open>else\<close> branch never dereference nil.
\<close>

lemma iteration_invariant:
  assumes "iteration e s = (Continue, s', evs)"
    and "(login s \<longrightarrow> \<not> wait s) \<and> (\<not> login s \<longrightarrow> wait s \<and> identity s \<noteq> None)"
  shows "(login s' \<longrightarrow> \<not> wait s') \<and> (\<not> login s' \<longrightarrow> wait s' \<and> identity s' \<noteq> None)"
  using assms
  by (auto simp: iteration_defs split: if_splits sum.splits option.splits prod.splits)

lemma reachable_invariant:
  "reachable s \<Longrightarrow>
     (login s \<longrightarrow> \<not> wait s) \<and> (\<not> login s \<longrightarrow> wait s \<and> identity s \<noteq> None)"
proof (induction rule: reachable.induct)
  case reachable_init
  show ?case by (simp add: initialState_def)
next
  case (reachable_step s e s' evs)
  then show ?case using iteration_invariant by blast
qed

lemma reachable_no_panic:
  "reachable s \<Longrightarrow> fst (iteration e s) \<noteq> Panicked p"
  using reachable_invariant [of s]
  by (auto simp: iteration_defs split: if_splits sum.splits option.splits prod.splits)

text \<open>The example state is the state after one successful login.\<close>

lemma example_active_reachable: "reachable example_active"
proof -
  have "iteration env_login_ok initialState =
          (Continue, example_active,
           [Unlock initialState, Log Info,
            UserCredsToken (Inr \<lparr> AccessToken = ''h.p.s'', RefreshToken = ''r0'' \<rparr>),
            ParseToken (Inr (example_token, example_identity)), Log Info,
            Unlock example_active, Log Info, Sleep (3060 * Second)])"
    by (simp add: iteration_defs env_login_ok_def initialState_def example_active_def
        example_identity_def)
  with reachable_init show ?thesis by (rule reachable_step)
qed

text \<open>
  C3. In the Active state (a state at the top of the loop that does not need a login),
  a failed refresh sets \<open>login\<close> under the lock and continues with the next iteration:
  the trace of the iteration has no timed wait, and the cause of the failure shows in the
  severity of one log entry only. When no refresh token is held, \<open>login\<close> is set at
  once: the trace has neither a call to a collaborator nor a timed wait.
\<close>

theorem refresh_failure_needs_login:
  assumes "reachable s" and "\<not> cancelled e" and "\<not> login s"
  shows "(refresh s \<noteq> [] \<and> getRefreshedToken e (refresh s) = Inl err \<longrightarrow>
            iteration e s =
              (Continue, s\<lparr> wait := False, login := True \<rparr>,
               [Unlock (s\<lparr> wait := False \<rparr>), Log Info, Log Info,
                GetRefreshedToken (refresh s) (Inl err),
                Log (if err = ErrRefreshTokenExpired then Warn else Error),
                Unlock (s\<lparr> wait := False, login := True \<rparr>)]))
       \<and> (refresh s = [] \<longrightarrow>
            iteration e s =
              (Continue, s\<lparr> wait := False, login := True \<rparr>,
               [Unlock (s\<lparr> wait := False \<rparr>), Log Info, Log Info,
                Unlock (s\<lparr> wait := False, login := True \<rparr>)]))"
proof -
  from reachable_invariant [OF assms(1)] assms(3)
  obtain ident where "identity s = Some ident" by auto
  with assms(2,3) show ?thesis
    by (simp add: iteration_defs)
qed

theorem refresh_failure_needs_login_witness:
  "reachable example_active \<and> \<not> cancelled env_login_ok \<and> \<not> login example_active
   \<and> refresh example_active \<noteq> []
   \<and> getRefreshedToken env_login_ok (refresh example_active) = Inl ErrRefreshTokenExpired
   \<and> iteration env_login_ok example_active =
       (Continue, example_active\<lparr> wait := False, login := True \<rparr>,
        [Unlock (example_active\<lparr> wait := False \<rparr>), Log Info, Log Info,
         GetRefreshedToken ''r0'' (Inl ErrRefreshTokenExpired), Log Warn,
         Unlock (example_active\<lparr> wait := False, login := True \<rparr>)])"
proof -
  have c: "\<not> cancelled env_login_ok" by (simp add: env_login_ok_def)
  have l: "\<not> login example_active" by (simp add: example_active_def)
  have r: "refresh example_active = ''r0''" by (simp add: example_active_def)
  have g: "getRefreshedToken env_login_ok (refresh example_active) = Inl ErrRefreshTokenExpired"
    by (simp add: env_login_ok_def)
  show ?thesis
    using refresh_failure_needs_login [OF example_active_reachable c l, of ErrRefreshTokenExpired]
      example_active_reachable c l g
    by (simp add: r)
qed

text \<open>
  C10. An iteration whose login fails, or whose parse of the obtained access token fails,
  leaves the shared state as it was, every field: the task waits the five seconds of the
  back-off and continues (or returns when cancelled meanwhile). An iteration whose refresh
  fails changes only \<open>login\<close> in the state at the time of the attempt (the state after
  \<open>state.wait = false\<close> at the top of the loop): token, refresh token, identity and
  expiration keep their previous values.
\<close>

theorem failures_keep_credentials:
  assumes "reachable s" and "\<not> cancelled e"
  shows "(login s \<and> userCredsToken e = Inl err \<longrightarrow>
            iteration e s =
              (if cancelledInSleep e then Return else Continue, s,
               [Unlock s, Log Info, UserCredsToken (Inl err), Log Error, Sleep (5 * Second)]))
       \<and> (login s \<and> userCredsToken e = Inr resp \<and> parseToken e (AccessToken resp) = Inl err \<longrightarrow>
            iteration e s =
              (if cancelledInSleep e then Return else Continue, s,
               [Unlock s, Log Info, UserCredsToken (Inr resp), ParseToken (Inl err), Log Error,
                Sleep (5 * Second)]))
       \<and> (\<not> login s \<and> refresh s \<noteq> [] \<and> getRefreshedToken e (refresh s) = Inl err \<longrightarrow>
            (\<exists>evs s'. iteration e s = (Continue, s', evs)
               \<and> s' = (begin_iteration s)\<lparr> login := True \<rparr>
               \<and> token s' = token s \<and> refresh s' = refresh s
               \<and> identity s' = identity s \<and> expiration s' = expiration s))"
proof -
  have w: "login s \<Longrightarrow> s\<lparr> wait := False \<rparr> = s"
    using reachable_invariant [OF assms(1)] by simp
  have i: "\<not> login s \<Longrightarrow> \<exists>ident. identity s = Some ident"
    using reachable_invariant [OF assms(1)] by auto
  show ?thesis
    using assms(2) w i by (auto simp: iteration_defs)
qed

theorem failures_keep_credentials_witness:
  "reachable initialState \<and> \<not> cancelled env_login_fails \<and> login initialState
   \<and> userCredsToken env_login_fails = Inl (OtherError ''connection refused'')
   \<and> iteration env_login_fails initialState =
       (Continue, initialState,
        [Unlock initialState, Log Info, UserCredsToken (Inl (OtherError ''connection refused'')),
         Log Error, Sleep (5 * Second)])"
proof -
  have c: "\<not> cancelled env_login_fails" by (simp add: env_login_fails_def)
  have l: "login initialState" by (simp add: initialState_def)
  have u: "userCredsToken env_login_fails = Inl (OtherError ''connection refused'')"
    by (simp add: env_login_fails_def)
  have s: "\<not> cancelledInSleep env_login_fails" by (simp add: env_login_fails_def)
  show ?thesis
    using failures_keep_credentials [OF reachable_init c, of "OtherError ''connection refused''"]
      reachable_init c l u s
    by simp
qed

subsection \<open>What the signers read\<close>

lemma fresh_append: "fresh cur (a @ b) = (fresh cur a \<and> fresh (latest cur a) b)"
  by (induction cur a rule: fresh.induct) simp_all

lemma iteration_fresh:
  assumes "iteration e s = (out, s', evs)"
  shows "fresh (token s) evs \<and> token s' = latest (token s) evs"
  using assms
  by (auto simp: iteration_defs split: if_splits sum.splits option.splits prod.splits)

lemma run_fresh: "fresh (token s) (run es s)"
proof (induction es arbitrary: s)
  case Nil
  show ?case by simp
next
  case (Cons e es)
  obtain out s' evs where it: "iteration e s = (out, s', evs)"
    by (cases "iteration e s") auto
  from iteration_fresh [OF it] have f: "fresh (token s) evs" and t: "token s' = latest (token s) evs"
    by simp_all
  show ?case
  proof (cases "out = Continue")
    case True
    with it f t Cons [of s'] show ?thesis by (simp add: fresh_append)
  next
    case False
    with it f show ?thesis by (cases out) simp_all
  qed
qed

lemma views_fresh:
  assumes "fresh cur tr" and "token s = c0 \<or> token s \<in> P" and "cur = c0 \<or> cur \<in> P"
  shows "\<forall>v \<in> set (views s tr). token v = c0 \<or> token v \<in> P \<union> set (produced tr)"
  using assms
proof (induction cur tr arbitrary: s P rule: fresh.induct)
  case (3 cur tok uu evs)
  have "\<forall>v \<in> set (views s evs). token v = c0 \<or> token v \<in> (insert tok P) \<union> set (produced evs)"
    using 3 by (intro "3.IH") auto
  with 3 show ?case by auto
next
  case (4 cur uv tok uw ux evs)
  have "\<forall>v \<in> set (views s evs). token v = c0 \<or> token v \<in> (insert tok P) \<union> set (produced evs)"
    using 4 by (intro "4.IH") auto
  with 4 show ?case by auto
qed auto

lemma run_example:
  "run [env_login_ok] initialState =
     [Unlock initialState, Log Info,
      UserCredsToken (Inr \<lparr> AccessToken = ''h.p.s'', RefreshToken = ''r0'' \<rparr>),
      ParseToken (Inr (example_token, example_identity)), Log Info,
      Unlock example_active, Log Info, Sleep (3060 * Second)]"
  by (simp add: iteration_defs env_login_ok_def initialState_def example_active_def
      example_identity_def)

text \<open>
  C4 (amended). In every execution of the task from the initial state, whatever the
  collaborators answer: the token of the initial state is the zero value; every state
  published under the lock holds the token obtained by the latest successful login or
  refresh before the publication, and the zero-value token when none has succeeded yet;
  so a signer reads the zero-value token or a token obtained by a successful login or
  refresh of the execution.
\<close>

theorem readers_see_latest_token:
  "signer_token initialState = zeroJWT
   \<and> fresh zeroJWT (run es initialState)
   \<and> (\<forall>v \<in> set (views initialState (run es initialState)).
         signer_token v = zeroJWT \<or> signer_token v \<in> set (produced (run es initialState)))"
proof -
  have z: "token initialState = zeroJWT" by (simp add: initialState_def)
  have f: "fresh zeroJWT (run es initialState)"
    using run_fresh [of initialState es] by (simp only: z)
  have "\<forall>v \<in> set (views initialState (run es initialState)).
          token v = zeroJWT \<or> token v \<in> {} \<union> set (produced (run es initialState))"
    by (rule views_fresh [OF f]) (simp_all add: z)
  with z f show ?thesis by (simp add: signer_token_def)
qed

theorem readers_see_latest_token_witness:
  "example_active \<in> set (views initialState (run [env_login_ok] initialState))
   \<and> signer_token example_active = example_token
   \<and> example_token \<in> set (produced (run [env_login_ok] initialState))
   \<and> fresh zeroJWT (run [env_login_ok] initialState)"
  using readers_see_latest_token [of "[env_login_ok]"]
  unfolding run_example
  by (simp add: signer_token_def example_active_def)

text \<open>
  Before the first login has succeeded a signer reads the zero-value token, which no
  login or refresh has obtained: here the first login fails.
\<close>

theorem reader_sees_zero_token_before_first_login:
  "initialState \<in> set (views initialState (run [env_login_fails] initialState))
   \<and> signer_token initialState \<notin> set (produced (run [env_login_fails] initialState))"
  by (simp add: iteration_defs env_login_fails_def initialState_def)

section \<open>Properties of the identity extraction\<close>








end
